theory Spec2Isabelle
  imports Complex_Main
begin

section \<open>Numbers of the program\<close>

text \<open>
  A number of the program is a Python \<open>int\<close> or \<open>float\<close>: an exact finite value, one of
  the two infinities, or the float that is not a number. \<open>json\<close> reads \<open>1e999\<close> and
  \<open>Infinity\<close> as infinity and \<open>NaN\<close> as not-a-number. Python compares an \<open>int\<close> and a
  \<open>float\<close> by their exact values, and every comparison with not-a-number is false.
\<close>

datatype pynum = Fin real | PInf | NInf | NaN

text \<open>The comparisons \<open>a < b\<close> and \<open>a <= b\<close>.\<close>

definition py_lt :: "pynum \<Rightarrow> pynum \<Rightarrow> bool" where
  "py_lt a b =
     (case (a, b) of
        (Fin x, Fin y) \<Rightarrow> x < y
      | (Fin x, PInf) \<Rightarrow> True
      | (NInf, Fin y) \<Rightarrow> True
      | (NInf, PInf) \<Rightarrow> True
      | _ \<Rightarrow> False)"

definition py_le :: "pynum \<Rightarrow> pynum \<Rightarrow> bool" where
  "py_le a b =
     (case (a, b) of
        (Fin x, Fin y) \<Rightarrow> x \<le> y
      | (Fin x, PInf) \<Rightarrow> True
      | (NInf, Fin y) \<Rightarrow> True
      | (NInf, PInf) \<Rightarrow> True
      | (NInf, NInf) \<Rightarrow> True
      | (PInf, PInf) \<Rightarrow> True
      | _ \<Rightarrow> False)"

text \<open>
  The arithmetic of \<open>process_deal_data\<close> is that of the Python runtime on \<open>int\<close> and
  binary \<open>float\<close>, whose results depend on the rounding of every operation. It is a
  parameter of the model. For a sale minimum and a list minimum that passed the guard,
  \<open>percent_off\<close> is the value of \<open>round(((list_min - sale_min) / list_min) * 100, 2)\<close> and
  \<open>dollars_off\<close> that of \<open>round(list_min - sale_min, 2)\<close>; \<open>None\<close> where the expression
  raises \<open>OverflowError\<close>, as it does on integers too large for a float.
\<close>

record arithmetic =
  percent_off :: "pynum \<Rightarrow> pynum \<Rightarrow> pynum option"
  dollars_off :: "pynum \<Rightarrow> pynum \<Rightarrow> pynum option"

section \<open>Values of the feed: parsed JSON\<close>

text \<open>
  The feed answers with JSON, and \<open>process_deal_data\<close> reads it with \<open>dict.get\<close>, so the
  model keeps the parsed values as they are. \<open>JObj\<close> is the parsed dictionary as an
  association list with distinct keys, \<open>JNull\<close> is Python's \<open>None\<close>.
\<close>

datatype json =
    JNull
  | JBool bool
  | JNum pynum
  | JStr string
  | JArr "json list"
  | JObj "(string \<times> json) list"

datatype error = AttributeError | TypeError | OverflowError

text \<open>
  Truth value of an object in a condition (\<open>if x\<close>, \<open>x and y\<close>). Of the numbers only zero
  is false.
\<close>

fun truthy :: "json \<Rightarrow> bool" where
  "truthy JNull = False"
| "truthy (JBool b) = b"
| "truthy (JNum x) = (x \<noteq> Fin 0)"
| "truthy (JStr s) = (s \<noteq> [])"
| "truthy (JArr xs) = (xs \<noteq> [])"
| "truthy (JObj kv) = (kv \<noteq> [])"

text \<open>\<open>d.get(k, default)\<close> on a dictionary.\<close>

definition dict_get :: "(string \<times> json) list \<Rightarrow> string \<Rightarrow> json \<Rightarrow> json" where
  "dict_get kv k dflt = (case map_of kv k of Some v \<Rightarrow> v | None \<Rightarrow> dflt)"

text \<open>\<open>x.get(k)\<close> on any value: only a dictionary has the method.\<close>

fun attr_get :: "json \<Rightarrow> string \<Rightarrow> error + json" where
  "attr_get (JObj kv) k = Inr (dict_get kv k JNull)"
| "attr_get _ k = Inl AttributeError"

text \<open>
  \<open>isinstance(x, (int, float))\<close>. Python's \<open>bool\<close> is a subclass of \<open>int\<close>, so a JSON
  boolean passes the test and counts as 1 or 0.
\<close>

fun is_number :: "json \<Rightarrow> bool" where
  "is_number (JNum x) = True"
| "is_number (JBool b) = True"
| "is_number _ = False"

fun num_val :: "json \<Rightarrow> pynum" where
  "num_val (JNum x) = x"
| "num_val (JBool b) = Fin (if b then 1 else 0)"
| "num_val _ = Fin 0"

section \<open>Deals\<close>

datatype deal_status = NEW_LOW | PRICE_DROP pynum | GREAT_DEAL

text \<open>
  The dictionary built by \<open>process_deal_data\<close>. \<open>sale_price\<close> and \<open>list_price\<close> are \<open>None\<close>
  or a number; \<open>status\<close> is a key the refresh cycle adds later, absent until then.
\<close>

record deal =
  offer_id :: json
  title :: json
  url :: json
  feed_name :: string
  sale_price :: "pynum option"
  list_price :: "pynum option"
  discount_percent :: pynum
  savings_amount :: pynum
  is_sold_out :: json
  status :: "deal_status option"

definition MIN_SALE_PRICE :: real where "MIN_SALE_PRICE = 75"
definition MIN_PERCENT_OFF_LOW_TIER :: real where "MIN_PERCENT_OFF_LOW_TIER = 50"
definition MIN_DOLLAR_SAVINGS :: real where "MIN_DOLLAR_SAVINGS = 40"

text \<open>
  The body of \<open>if sale_price_data and list_price_data:\<close>. An \<open>AttributeError\<close> of either
  \<open>.get\<close> is caught there and leaves the deal as it was. An \<open>OverflowError\<close> of the
  arithmetic is not among the exceptions caught and leaves \<open>process_deal_data\<close>.
\<close>

definition extract_prices :: "arithmetic \<Rightarrow> json \<Rightarrow> json \<Rightarrow> deal \<Rightarrow> error + deal" where
  "extract_prices ar sale_price_data list_price_data d =
     (if truthy sale_price_data \<and> truthy list_price_data then
        (case attr_get sale_price_data ''Minimum'' of
           Inl e \<Rightarrow> Inr d
         | Inr sale_min \<Rightarrow>
             (case attr_get list_price_data ''Minimum'' of
                Inl e \<Rightarrow> Inr d
              | Inr list_min \<Rightarrow>
                  if is_number sale_min \<and> is_number list_min
                     \<and> py_lt (Fin 0) (num_val list_min)
                     \<and> py_lt (num_val sale_min) (num_val list_min)
                  then
                    (case percent_off ar (num_val sale_min) (num_val list_min) of
                       None \<Rightarrow> Inl OverflowError
                     | Some percent \<Rightarrow>
                         (case dollars_off ar (num_val sale_min) (num_val list_min) of
                            None \<Rightarrow> Inl OverflowError
                          | Some dollars \<Rightarrow>
                              Inr (d\<lparr>sale_price := Some (num_val sale_min),
                                     list_price := Some (num_val list_min),
                                     discount_percent := percent,
                                     savings_amount := dollars\<rparr>)))
                  else Inr d))
      else Inr d)"

definition initial_deal :: "(string \<times> json) list \<Rightarrow> string \<Rightarrow> deal" where
  "initial_deal kv feed =
     \<lparr>offer_id = dict_get kv ''OfferId'' (JStr ''N/A''),
      title = dict_get kv ''Title'' (JStr ''No Title''),
      url = dict_get kv ''Url'' (JStr ''#''),
      feed_name = feed,
      sale_price = None,
      list_price = None,
      discount_percent = Fin 0,
      savings_amount = Fin 0,
      is_sold_out = dict_get kv ''IsSoldOut'' (JBool True),
      status = None\<rparr>"

text \<open>A raw item that is not a dictionary has no \<open>.get\<close>: the first line raises.\<close>

fun process_deal_data :: "arithmetic \<Rightarrow> json \<Rightarrow> string \<Rightarrow> error + deal" where
  "process_deal_data ar (JObj kv) feed =
     extract_prices ar (dict_get kv ''SalePrice'' JNull) (dict_get kv ''ListPrice'' JNull)
       (initial_deal kv feed)"
| "process_deal_data ar _ feed = Inl AttributeError"

text \<open>
  The four tests of the filter. Each returns \<open>False\<close> when its \<open><\<close> holds, so a value
  that is not a number fails none of them.
\<close>

definition passes_strict_rules :: "deal \<Rightarrow> bool" where
  "passes_strict_rules d =
     (case sale_price d of
        None \<Rightarrow> False
      | Some p \<Rightarrow>
          if truthy (is_sold_out d) then False
          else if py_lt p (Fin MIN_SALE_PRICE) then False
          else if py_lt (savings_amount d) (Fin MIN_DOLLAR_SAVINGS) then False
          else if py_lt (discount_percent d) (Fin MIN_PERCENT_OFF_LOW_TIER) then False
          else True)"

section \<open>The feed fetcher\<close>

text \<open>
  What one \<open>requests.get\<close> can do: answer with a status code and a body (the body as
  \<open>response.json()\<close> parses it), run into the 10 second timeout, or fail with another
  \<open>RequestException\<close>. The network is an input of the model: \<open>net feed attempt\<close> is
  the outcome of that attempt on that feed, and \<open>jitter feed attempt\<close> is the value
  \<open>random.uniform(0.5, 1)\<close> returns there.
\<close>

datatype attempt_outcome = Response nat json | Timeout | RequestError

text \<open>The values \<open>random.uniform(a, b)\<close> can return.\<close>

definition uniform_range :: "real \<Rightarrow> real \<Rightarrow> real set" where
  "uniform_range a b = {x. a \<le> x \<and> x \<le> b}"

definition backoff_jitter :: "real set" where
  "backoff_jitter = uniform_range (1 / 2) 1"

text \<open>
  The waits \<open>2**attempt + random.uniform(0.5, 1)\<close> can come to. The sum is taken exactly:
  rounding it to a float is monotone and the bounds proved of it below are floats, so
  they hold of the rounded sum as well.
\<close>

definition backoff_delays :: "nat \<Rightarrow> real set" where
  "backoff_delays attempt = (\<lambda>j. 2 ^ attempt + j) ` backoff_jitter"

text \<open>
  The result of a fetch: what the function returns or raises, the attempts on which a
  request was sent, and the waits as pairs of attempt and delay.
\<close>

record fetch_result =
  returned :: "error + json"
  attempts :: "nat list"
  sleeps :: "(nat \<times> real) list"

definition gave_up :: fetch_result where
  "gave_up = \<lparr>returned = Inr (JArr []), attempts = [], sleeps = []\<rparr>"

definition attempted :: "nat \<Rightarrow> fetch_result \<Rightarrow> fetch_result" where
  "attempted a r = r\<lparr>attempts := a # attempts r\<rparr>"

definition slept :: "nat \<Rightarrow> real \<Rightarrow> fetch_result \<Rightarrow> fetch_result" where
  "slept a delay r = r\<lparr>sleeps := (a, delay) # sleeps r\<rparr>"

text \<open>
  The loop \<open>for attempt in range(3)\<close> over the attempts still to make. Status 200 returns
  \<open>response.json().get('Items', [])\<close>, whose \<open>AttributeError\<close> on a body that is not a
  dictionary no \<open>except\<close> clause catches. Status 429 sleeps and goes on.
  \<open>raise_for_status\<close> raises for the statuses 400 to 599, which is a \<open>RequestException\<close>
  and leaves the loop; for any other status it returns and the loop goes on. A body that
  is not JSON is left out: whether the exception of \<open>response.json()\<close> is a
  \<open>RequestException\<close> depends on the version of the library.
\<close>

fun fetch_attempts ::
  "(nat \<Rightarrow> attempt_outcome) \<Rightarrow> (nat \<Rightarrow> real) \<Rightarrow> nat list \<Rightarrow> fetch_result" where
  "fetch_attempts outcome jit [] = gave_up"
| "fetch_attempts outcome jit (attempt # rest) =
     attempted attempt
       (case outcome attempt of
          Response code body \<Rightarrow>
            if code = 200 then
              gave_up\<lparr>returned :=
                (case body of JObj kv \<Rightarrow> Inr (dict_get kv ''Items'' (JArr []))
                 | _ \<Rightarrow> Inl AttributeError)\<rparr>
            else if code = 429 then
              slept attempt (2 ^ attempt + jit attempt) (fetch_attempts outcome jit rest)
            else if 400 \<le> code \<and> code < 600 then gave_up
            else fetch_attempts outcome jit rest
        | Timeout \<Rightarrow> fetch_attempts outcome jit rest
        | RequestError \<Rightarrow> gave_up)"

definition fetch_feed_data ::
  "(string \<Rightarrow> nat \<Rightarrow> attempt_outcome) \<Rightarrow> (string \<Rightarrow> nat \<Rightarrow> real) \<Rightarrow> string \<Rightarrow> fetch_result" where
  "fetch_feed_data nw jit feed = fetch_attempts (nw feed) (jit feed) [0, 1, 2]"

section \<open>The state of the process\<close>

text \<open>
  The dictionary of historical lows. A key that is not a number equal to itself can be
  looked up again and lives in \<open>entries\<close>. A not-a-number identifier is hashable but
  equal to no key, not even to another not-a-number: a lookup by it finds nothing and an
  assignment under it adds an entry no later lookup finds. Those entries are \<open>strays\<close>.
  The values are numbers, which is all this process ever stores.
\<close>

record lows =
  entries :: "json \<rightharpoonup> pynum"
  strays :: "pynum list"

definition no_lows :: lows where
  "no_lows = \<lparr>entries = Map.empty, strays = []\<rparr>"

text \<open>
  The key a value has in a Python dictionary: lists and dictionaries are unhashable,
  \<open>True\<close> and \<open>False\<close> are the keys 1 and 0, and not-a-number matches no key (\<open>None\<close>).
\<close>

fun dict_key :: "json \<Rightarrow> error + json option" where
  "dict_key (JArr xs) = Inl TypeError"
| "dict_key (JObj kv) = Inl TypeError"
| "dict_key (JBool b) = Inr (Some (JNum (Fin (if b then 1 else 0))))"
| "dict_key (JNum NaN) = Inr None"
| "dict_key v = Inr (Some v)"

text \<open>\<open>historical_lows_cache.get(offer_id, float('inf'))\<close>.\<close>

definition stored_low :: "lows \<Rightarrow> json option \<Rightarrow> pynum" where
  "stored_low c key =
     (case key of
        None \<Rightarrow> PInf
      | Some k \<Rightarrow> (case entries c k of None \<Rightarrow> PInf | Some v \<Rightarrow> v))"

text \<open>\<open>historical_lows_cache[offer_id] = price\<close>.\<close>

definition store_low :: "lows \<Rightarrow> json option \<times> pynum \<Rightarrow> lows" where
  "store_low c kp =
     (case kp of
        (None, price) \<Rightarrow> c\<lparr>strays := strays c @ [price]\<rparr>
      | (Some k, price) \<Rightarrow> c\<lparr>entries := (entries c)(k \<mapsto> price)\<rparr>)"

text \<open>
  The file \<open>historical_lows.json\<close> as this process leaves it: not written yet, holding
  the dictionary of the last successful \<open>json.dump\<close>, or damaged by a write that failed
  after \<open>open(..., 'w')\<close> had emptied the file. A write succeeds, fails in \<open>open\<close> and
  leaves the file as it was, or fails later.
\<close>

datatype file_state = Unwritten | Written lows | Damaged

datatype write_outcome = WriteOk | OpenFails | DumpFails

text \<open>
  \<open>historical_lows_cache\<close> is the module's dictionary, \<open>all_qualified_deals\<close> and
  \<open>last_fetch_time\<close> are the attributes of the client. Two logs record effects that leave
  no other trace in the state: \<open>fetched\<close> the calls of \<open>fetch_feed_data\<close>, \<open>saved\<close> the
  calls of \<open>save_historical_low\<close>.
\<close>

record bot_state =
  historical_lows_cache :: lows
  persistence_file :: file_state
  all_qualified_deals :: "deal list"
  last_fetch_time :: real
  fetched :: "string list"
  saved :: "(json option \<times> pynum) list"

text \<open>The state when the process starts: line 41 and \<open>WootBotClient.__init__\<close>.\<close>

definition initial_state :: bot_state where
  "initial_state =
     \<lparr>historical_lows_cache = no_lows, persistence_file = Unwritten, all_qualified_deals = [],
      last_fetch_time = 0, fetched = [], saved = []\<rparr>"

definition MAX_CACHE_AGE_SECONDS :: real where "MAX_CACHE_AGE_SECONDS = 300"

definition FEED_NAMES :: "string list" where
  "FEED_NAMES = [''All'', ''Clearance'', ''Computers'', ''Electronics'', ''Featured'', ''Home'',
     ''Gourmet'', ''Shirts'', ''Sports'', ''Tools'', ''Wootoff'']"

text \<open>
  What \<open>load_historical_lows\<close> finds. The file lies outside the process, and
  \<open>json.load\<close> gives back every key as a string, so what a load reads is an input and
  not derived from \<open>persistence_file\<close>. A file that is read is taken to hold a dictionary
  of numbers.
\<close>

datatype load_result = FileMissing | LoadFailed | Loaded "json \<rightharpoonup> pynum"

definition load_historical_lows :: "load_result \<Rightarrow> bot_state \<Rightarrow> bot_state" where
  "load_historical_lows r w =
     (case r of
        FileMissing \<Rightarrow> w
      | LoadFailed \<Rightarrow> w\<lparr>historical_lows_cache := no_lows\<rparr>
      | Loaded m \<Rightarrow> w\<lparr>historical_lows_cache := \<lparr>entries = m, strays = []\<rparr>\<rparr>)"

text \<open>
  \<open>save_historical_low\<close>: the cache is updated first, then the whole cache is written.
  A failing write is caught and reported, and the cache keeps the update.
\<close>

definition save_historical_low ::
  "write_outcome \<Rightarrow> bot_state \<Rightarrow> json option \<Rightarrow> pynum \<Rightarrow> bot_state" where
  "save_historical_low written w key price =
     (let cache = store_low (historical_lows_cache w) (key, price)
      in w\<lparr>historical_lows_cache := cache,
           persistence_file :=
             (case written of
                WriteOk \<Rightarrow> Written cache
              | OpenFails \<Rightarrow> persistence_file w
              | DumpFails \<Rightarrow> Damaged),
           saved := saved w @ [(key, price)]\<rparr>)"

section \<open>The refresh cycle\<close>

text \<open>
  Lines 378 to 391, for a deal that passed the filter. The lookup raises \<open>TypeError\<close> on
  an unhashable identifier, the comparison on a sale price \<open>None\<close>. \<open>writes n\<close> is the
  outcome of the write of the save that follows \<open>n\<close> earlier saves.
\<close>

definition track_deal ::
  "(nat \<Rightarrow> write_outcome) \<Rightarrow> bot_state \<Rightarrow> deal \<Rightarrow> error + (bot_state \<times> deal)" where
  "track_deal writes w d =
     (case dict_key (offer_id d) of
        Inl e \<Rightarrow> Inl e
      | Inr key \<Rightarrow>
          (case sale_price d of
             None \<Rightarrow> Inl TypeError
           | Some p \<Rightarrow>
               (let current_low = stored_low (historical_lows_cache w) key
                in if py_lt p current_low
                   then Inr (save_historical_low (writes (length (saved w))) w key p,
                             d\<lparr>status :=
                                 Some (if current_low = PInf then NEW_LOW
                                       else PRICE_DROP current_low)\<rparr>)
                   else Inr (w, d\<lparr>status := Some GREAT_DEAL\<rparr>))))"

text \<open>
  The body of \<open>for raw_deal in deals_data\<close>. An exception leaves the function; the state
  it leaves behind is returned with it.
\<close>

definition process_item ::
  "arithmetic \<Rightarrow> (nat \<Rightarrow> write_outcome) \<Rightarrow> string \<Rightarrow> json \<Rightarrow> bot_state \<Rightarrow> deal list
     \<Rightarrow> (error \<times> bot_state) + (bot_state \<times> deal list)" where
  "process_item ar writes feed raw w acc =
     (case process_deal_data ar raw feed of
        Inl e \<Rightarrow> Inl (e, w)
      | Inr d \<Rightarrow>
          if passes_strict_rules d then
            (case track_deal writes w d of
               Inl e \<Rightarrow> Inl (e, w)
             | Inr (w', d') \<Rightarrow> Inr (w', acc @ [d']))
          else Inr (w, acc))"

fun process_items ::
  "arithmetic \<Rightarrow> (nat \<Rightarrow> write_outcome) \<Rightarrow> string \<Rightarrow> json list \<Rightarrow> bot_state \<Rightarrow> deal list
     \<Rightarrow> (error \<times> bot_state) + (bot_state \<times> deal list)" where
  "process_items ar writes feed [] w acc = Inr (w, acc)"
| "process_items ar writes feed (raw # rest) w acc =
     (case process_item ar writes feed raw w acc of
        Inl ew \<Rightarrow> Inl ew
      | Inr (w', acc') \<Rightarrow> process_items ar writes feed rest w' acc')"

text \<open>
  What \<open>for raw_deal in deals_data\<close> iterates over: the elements of a list, the keys of
  a dictionary, the characters of a string; anything else is not iterable.
\<close>

fun iter_items :: "json \<Rightarrow> error + json list" where
  "iter_items (JArr xs) = Inr xs"
| "iter_items (JObj kv) = Inr (map (\<lambda>(k, v). JStr k) kv)"
| "iter_items (JStr s) = Inr (map (\<lambda>c. JStr [c]) s)"
| "iter_items _ = Inl TypeError"

text \<open>
  Everything one cycle takes from outside. \<open>nan_order\<close> is what \<open>list.sort\<close> makes of a
  list in which a discount is not a number: its comparisons are then inconsistent and
  the order it leaves depends on how it merges.
\<close>

record env =
  load_outcome :: load_result
  net :: "string \<Rightarrow> nat \<Rightarrow> attempt_outcome"
  jitter :: "string \<Rightarrow> nat \<Rightarrow> real"
  arith :: arithmetic
  write_result :: "nat \<Rightarrow> write_outcome"
  nan_order :: "deal list \<Rightarrow> deal list"
  finish_time :: real

text \<open>
  The body of \<open>for feed_name in FEED_NAMES\<close>. The pacing sleep that ends it changes
  nothing in the state and is not modelled.
\<close>

definition feed_iteration ::
  "env \<Rightarrow> string \<Rightarrow> bot_state \<Rightarrow> deal list \<Rightarrow> (error \<times> bot_state) + (bot_state \<times> deal list)" where
  "feed_iteration e feed w acc =
     (let w1 = w\<lparr>fetched := fetched w @ [feed]\<rparr>
      in case returned (fetch_feed_data (net e) (jitter e) feed) of
           Inl err \<Rightarrow> Inl (err, w1)
         | Inr deals_data \<Rightarrow>
             (case iter_items deals_data of
                Inl err \<Rightarrow> Inl (err, w1)
              | Inr raws \<Rightarrow> process_items (arith e) (write_result e) feed raws w1 acc))"

fun run_feeds ::
  "env \<Rightarrow> string list \<Rightarrow> bot_state \<Rightarrow> deal list \<Rightarrow> (error \<times> bot_state) + (bot_state \<times> deal list)" where
  "run_feeds e [] w acc = Inr (w, acc)"
| "run_feeds e (feed # feeds) w acc =
     (case feed_iteration e feed w acc of
        Inl ew \<Rightarrow> Inl ew
      | Inr (w', acc') \<Rightarrow> run_feeds e feeds w' acc')"

text \<open>
  \<open>sort(key=lambda d: d['discount_percent'], reverse=True)\<close> on discounts that are
  numbers: the stable sort by descending discount, each deal going behind those with a
  greater discount and before those with an equal one that followed it.
\<close>

fun insert_desc :: "deal \<Rightarrow> deal list \<Rightarrow> deal list" where
  "insert_desc d [] = [d]"
| "insert_desc d (x # xs) =
     (if py_lt (discount_percent d) (discount_percent x) then x # insert_desc d xs
      else d # x # xs)"

definition sort_desc :: "deal list \<Rightarrow> deal list" where
  "sort_desc ds = foldr insert_desc ds []"

text \<open>The end of the cycle: the sort, then the two assignments.\<close>

definition publish :: "env \<Rightarrow> bot_state \<Rightarrow> deal list \<Rightarrow> bot_state" where
  "publish e w acc =
     w\<lparr>all_qualified_deals :=
         (if list_ex (\<lambda>d. discount_percent d = NaN) acc then nan_order e acc
          else sort_desc acc),
       last_fetch_time := finish_time e\<rparr>"

text \<open>
  \<open>fetch_and_filter_deals_internal\<close>, called at time \<open>now\<close>. It returns the state it
  leaves and either the list it returns or the exception it raises.
\<close>

definition fetch_and_filter_deals_internal ::
  "env \<Rightarrow> bot_state \<Rightarrow> bool \<Rightarrow> real \<Rightarrow> bot_state \<times> (error + deal list)" where
  "fetch_and_filter_deals_internal e w force_refresh now =
     (if \<not> force_refresh \<and> now - last_fetch_time w < MAX_CACHE_AGE_SECONDS
      then (w, Inr (all_qualified_deals w))
      else
        (case run_feeds e FEED_NAMES (load_historical_lows (load_outcome e) w) [] of
           Inl (err, w') \<Rightarrow> (w', Inl err)
         | Inr (w', acc) \<Rightarrow>
             (publish e w' acc, Inr (all_qualified_deals (publish e w' acc)))))"

section \<open>Triggers that overlap\<close>

text \<open>
  \<open>fetch_and_filter_deals_internal\<close> is a coroutine on a single event loop: between two
  \<open>await\<close>s it runs alone, and at an \<open>await\<close> (the fetch of a feed, the pacing sleep)
  another trigger may run. A task is one call of the coroutine: not yet started, in its
  loop with the feeds still to do and the deals accepted so far, or finished by a
  \<open>return\<close> or by an exception. One step takes a task to its next \<open>await\<close>.
\<close>

datatype task =
    Waiting bool real
  | InFlight "string list" "deal list"
  | Returned "deal list"
  | Raised error

fun task_step :: "env \<Rightarrow> bot_state \<Rightarrow> task \<Rightarrow> bot_state \<times> task" where
  "task_step e w (Waiting force_refresh now) =
     (if \<not> force_refresh \<and> now - last_fetch_time w < MAX_CACHE_AGE_SECONDS
      then (w, Returned (all_qualified_deals w))
      else (load_historical_lows (load_outcome e) w, InFlight FEED_NAMES []))"
| "task_step e w (InFlight [] acc) =
     (publish e w acc, Returned (all_qualified_deals (publish e w acc)))"
| "task_step e w (InFlight (feed # feeds) acc) =
     (case feed_iteration e feed w acc of
        Inl (err, w') \<Rightarrow> (w', Raised err)
      | Inr (w', acc') \<Rightarrow> (w', InFlight feeds acc'))"
| "task_step e w t = (w, t)"

text \<open>
  The event loop: the tasks share the state, each has its own inputs, and a schedule
  names the task that runs next.
\<close>

fun run_schedule ::
  "nat list \<Rightarrow> bot_state \<times> (env \<times> task) list \<Rightarrow> bot_state \<times> (env \<times> task) list" where
  "run_schedule [] s = s"
| "run_schedule (i # rest) (w, ts) =
     (if i < length ts then
        (case ts ! i of
           (e, t) \<Rightarrow>
             (case task_step e w t of
                (w', t') \<Rightarrow> run_schedule rest (w', ts[i := (e, t')])))
      else run_schedule rest (w, ts))"

fun in_flight :: "task \<Rightarrow> bool" where
  "in_flight (InFlight feeds acc) = True"
| "in_flight t = False"

definition cycles_in_flight :: "(env \<times> task) list \<Rightarrow> nat" where
  "cycles_in_flight ts = length (filter (\<lambda>(e, t). in_flight t) ts)"

section \<open>The pagination view\<close>

text \<open>
  \<open>DealsView\<close>: the list, the title, the page and the page count, and the \<open>disabled\<close>
  flags of its two buttons. The two decorated methods are the children of the view, so
  the test \<open>len(self.children) >= 2\<close> of \<open>update_buttons\<close> holds. Editing the message is
  outside the model.
\<close>

record deals_view =
  deals :: "deal list"
  view_title :: string
  current_page :: int
  total_pages :: int
  previous_disabled :: bool
  next_disabled :: bool

definition MAX_DEALS_PER_PAGE :: int where "MAX_DEALS_PER_PAGE = 10"

definition update_buttons :: "deals_view \<Rightarrow> deals_view" where
  "update_buttons v =
     v\<lparr>previous_disabled := (current_page v = 0),
       next_disabled := (current_page v = total_pages v - 1)\<rparr>"

definition DealsView :: "deal list \<Rightarrow> string \<Rightarrow> deals_view" where
  "DealsView ds t =
     update_buttons
       \<lparr>deals = ds, view_title = t, current_page = 0,
        total_pages = (int (length ds) + MAX_DEALS_PER_PAGE - 1) div MAX_DEALS_PER_PAGE,
        previous_disabled = False, next_disabled = False\<rparr>"

definition update_page :: "deals_view \<Rightarrow> deals_view" where
  "update_page v = update_buttons v"

definition previous_button :: "deals_view \<Rightarrow> deals_view" where
  "previous_button v =
     update_page (if 0 < current_page v then v\<lparr>current_page := current_page v - 1\<rparr> else v)"

definition next_button :: "deals_view \<Rightarrow> deals_view" where
  "next_button v =
     update_page
       (if current_page v < total_pages v - 1 then v\<lparr>current_page := current_page v + 1\<rparr>
        else v)"

datatype button = Previous | Next

fun press :: "deals_view \<Rightarrow> button \<Rightarrow> deals_view" where
  "press v Previous = previous_button v"
| "press v Next = next_button v"

text \<open>A view after any sequence of button presses.\<close>

definition presses :: "button list \<Rightarrow> deals_view \<Rightarrow> deals_view" where
  "presses bs v = foldl press v bs"

section \<open>Notions used to state the properties\<close>

text \<open>
  The \<open>Minimum\<close> of a price sub-object as the normalizer reads it: \<open>None\<close> for a
  dictionary without the key and for a value that is no dictionary at all.
\<close>

fun minimum_of :: "json \<Rightarrow> json" where
  "minimum_of (JObj kv) = dict_get kv ''Minimum'' JNull"
| "minimum_of v = JNull"

text \<open>
  What holds of a view after its constructor and after every press of a button. The
  flags are part of it because the buttons write them again on every press.
\<close>

definition view_ok :: "deals_view \<Rightarrow> bool" where
  "view_ok v \<longleftrightarrow>
     total_pages v = (int (length (deals v)) + 9) div 10
     \<and> 0 \<le> current_page v \<and> current_page v \<le> max 0 (total_pages v - 1)
     \<and> previous_disabled v = (current_page v = 0)
     \<and> next_disabled v = (current_page v = total_pages v - 1)"

text \<open>
  An arithmetic to try the properties on: exact on finite numbers, with the rules of the
  floats on the infinities. It gives what Python computes wherever the exact percentage
  and the exact difference are floats that the two roundings return unchanged, as on the
  items of the examples below: with a list minimum of 200 and an integral sale minimum
  the percentage is a multiple of one half and the difference an integer. Only the
  examples use it: the general properties are proved for every arithmetic.
\<close>

definition plain_arith :: arithmetic where
  "plain_arith =
     \<lparr>percent_off = (\<lambda>sale_min list_min.
          case (sale_min, list_min) of
            (Fin s, Fin l) \<Rightarrow> Some (Fin ((l - s) / l * 100))
          | (NInf, Fin l) \<Rightarrow> Some PInf
          | _ \<Rightarrow> Some NaN),
      dollars_off = (\<lambda>sale_min list_min.
          case (sale_min, list_min) of
            (Fin s, Fin l) \<Rightarrow> Some (Fin (l - s))
          | _ \<Rightarrow> Some PInf)\<rparr>"

text \<open>
  An item to try the properties on, the one of the spec's scenario: list minimum 200,
  not sold out, at a given identifier and sale minimum. \<open>example_deal\<close> is what the
  normalizer makes of it at identifier \<open>a1\<close> and sale minimum 80. The last item has an
  infinite list minimum, as \<open>json\<close> reads it from \<open>1e999\<close>.
\<close>

definition example_item :: "string \<Rightarrow> real \<Rightarrow> json" where
  "example_item ident price =
     JObj [(''OfferId'', JStr ident), (''Title'', JStr ''Lamp''), (''IsSoldOut'', JBool False),
           (''SalePrice'', JObj [(''Minimum'', JNum (Fin price))]),
           (''ListPrice'', JObj [(''Minimum'', JNum (Fin 200))])]"

definition example_deal :: deal where
  "example_deal =
     \<lparr>offer_id = JStr ''a1'', title = JStr ''Lamp'', url = JStr ''#'', feed_name = ''All'',
      sale_price = Some (Fin 80), list_price = Some (Fin 200), discount_percent = Fin 60,
      savings_amount = Fin 120, is_sold_out = JBool False, status = None\<rparr>"

definition infinite_list_item :: json where
  "infinite_list_item =
     JObj [(''OfferId'', JStr ''a1''), (''Title'', JStr ''Lamp''), (''IsSoldOut'', JBool False),
           (''SalePrice'', JObj [(''Minimum'', JNum (Fin 80))]),
           (''ListPrice'', JObj [(''Minimum'', JNum PInf)])]"





text \<open>The state a run leaves behind, whether it returned or raised.\<close>

fun state_left :: "(error \<times> bot_state) + (bot_state \<times> deal list) \<Rightarrow> bot_state" where
  "state_left (Inl (e, w)) = w"
| "state_left (Inr (w, acc)) = w"



text \<open>
  Networks to try the properties on. Offline, every request fails. In the others the feed
  \<open>All\<close> answers with the given items and the other feeds fail; the load, the outcome of
  every write and the time at the end of the cycle are given too. In \<open>malformed_env\<close> the
  items are the item of the scenario and a number where an item should be.
\<close>

definition offline_env :: "real \<Rightarrow> env" where
  "offline_env t =
     \<lparr>load_outcome = FileMissing, net = (\<lambda>feed attempt. RequestError),
      jitter = (\<lambda>feed attempt. 3 / 4), arith = plain_arith,
      write_result = (\<lambda>n. WriteOk), nan_order = (\<lambda>ds. ds), finish_time = t\<rparr>"




section \<open>The filter\<close>

lemma py_lt_simps [simp]:
  "py_lt (Fin x) (Fin y) = (x < y)"
  "py_lt (Fin x) PInf = True"
  "py_lt NInf (Fin y) = True"
  "py_lt NInf PInf = True"
  "py_lt a NaN = False"
  "py_lt NaN b = False"
  "py_lt PInf b = False"
  "py_lt a NInf = False"
  by (cases a; cases b; simp add: py_lt_def)+

lemma py_le_simps [simp]:
  "py_le (Fin x) (Fin y) = (x \<le> y)"
  "py_le (Fin x) PInf = True"
  "py_le NInf (Fin y) = True"
  "py_le a NaN = False"
  "py_le NaN b = False"
  "py_le PInf (Fin y) = False"
  "py_le (Fin x) NInf = False"
  by (cases a; cases b; simp add: py_le_def)+

lemma not_py_lt: "a \<noteq> NaN \<Longrightarrow> b \<noteq> NaN \<Longrightarrow> (\<not> py_lt a b) = py_le b a"
  by (cases a; cases b) (auto simp: py_lt_def py_le_def)

lemma py_lt_irrefl [simp]: "\<not> py_lt a a"
  by (cases a) simp_all

text \<open>
  What the filter tests: a deal passes exactly when its sale price is present, it is not
  sold out, and none of the three comparisons \<open>price < 75\<close>, \<open>savings < 40\<close> and
  \<open>discount < 50\<close> holds. Where none of the three numbers is not-a-number, that is the
  conjunction of the five conditions of the spec.
\<close>

lemma passes_strict_rules_tests:
  "passes_strict_rules d =
     (\<exists>p. sale_price d = Some p \<and> \<not> truthy (is_sold_out d) \<and> \<not> py_lt p (Fin 75)
          \<and> \<not> py_lt (savings_amount d) (Fin 40) \<and> \<not> py_lt (discount_percent d) (Fin 50))"
  by (cases "sale_price d")
     (auto simp: passes_strict_rules_def MIN_SALE_PRICE_def MIN_DOLLAR_SAVINGS_def
        MIN_PERCENT_OFF_LOW_TIER_def)

lemma passes_strict_rules_numbers:
  assumes "sale_price d \<noteq> Some NaN" and "savings_amount d \<noteq> NaN"
    and "discount_percent d \<noteq> NaN"
  shows "passes_strict_rules d =
     (\<exists>p. sale_price d = Some p \<and> \<not> truthy (is_sold_out d) \<and> py_le (Fin 75) p
          \<and> py_le (Fin 40) (savings_amount d) \<and> py_le (Fin 50) (discount_percent d))"
  using assms by (auto simp: passes_strict_rules_tests not_py_lt)

text \<open>
  C1 fails on the code. An item with sale minimum 80 and an infinite list minimum passes
  the guard of the normalizer, which tests only \<open>list_min > 0\<close> and \<open>list_min > sale_min\<close>;
  its discount is infinity divided by infinity, not a number. Line 172 returns \<open>False\<close>
  only if \<open>discount < 50\<close>, which is false of not-a-number, so the deal passes the filter
  although its discount is not at least 50.
\<close>

theorem nan_discount_passes_filter:
  "process_deal_data plain_arith infinite_list_item ''All''
     = Inr \<lparr>offer_id = JStr ''a1'', title = JStr ''Lamp'', url = JStr ''#'', feed_name = ''All'',
            sale_price = Some (Fin 80), list_price = Some PInf, discount_percent = NaN,
            savings_amount = PInf, is_sold_out = JBool False, status = None\<rparr>
   \<and> passes_strict_rules
       \<lparr>offer_id = JStr ''a1'', title = JStr ''Lamp'', url = JStr ''#'', feed_name = ''All'',
        sale_price = Some (Fin 80), list_price = Some PInf, discount_percent = NaN,
        savings_amount = PInf, is_sold_out = JBool False, status = None\<rparr>
   \<and> \<not> py_le (Fin 50) NaN"
  by (simp add: infinite_list_item_def extract_prices_def initial_deal_def dict_get_def
        plain_arith_def passes_strict_rules_tests)

section \<open>The normalizer\<close>

lemma extract_prices_unchanged:
  assumes "\<not> truthy sp \<or> \<not> truthy lp \<or> \<not> is_number (minimum_of sp)
           \<or> \<not> is_number (minimum_of lp) \<or> \<not> py_lt (Fin 0) (num_val (minimum_of lp))"
  shows "extract_prices ar sp lp d = Inr d"
  using assms
  by (cases sp; cases lp) (auto simp: extract_prices_def)

lemma extract_prices_sale_price:
  assumes "extract_prices ar sp lp d = Inr d'" and "sale_price d' = Some p"
    and "sale_price d = None"
  shows "p = num_val (minimum_of sp) \<and> py_lt p (num_val (minimum_of lp))"
  using assms
  by (cases sp; cases lp)
     (auto simp: extract_prices_def split: if_splits option.splits)

lemma initial_deal_fails: "\<not> passes_strict_rules (initial_deal kv feed)"
  by (simp add: passes_strict_rules_def initial_deal_def)

text \<open>
  C2, as the spec states it, fails: the normalizer tests \<open>list_min > 0\<close> and
  \<open>list_min > sale_min\<close>, never the sign of the sale minimum. An item with sale minimum 0
  and list minimum 200 gets a sale price of 0, a discount of 100 percent and savings of
  200.
\<close>

theorem nonpositive_sale_minimum_counterexample:
  "py_le (num_val (minimum_of (JObj [(''Minimum'', JNum (Fin 0))]))) (Fin 0)
   \<and> process_deal_data plain_arith (example_item ''a1'' 0) ''All''
     = Inr \<lparr>offer_id = JStr ''a1'', title = JStr ''Lamp'', url = JStr ''#'',
            feed_name = ''All'', sale_price = Some (Fin 0), list_price = Some (Fin 200),
            discount_percent = Fin 100, savings_amount = Fin 200, is_sold_out = JBool False,
            status = None\<rparr>"
  by (simp add: example_item_def extract_prices_def initial_deal_def dict_get_def
        plain_arith_def Let_def)

text \<open>
  C2, amended. For a raw item that is a dictionary and whatever the arithmetic: if the
  sale-price or the list-price sub-object is missing (or empty), or either minimum is not
  a number, or the list minimum is not greater than 0, the deal has discount 0, savings 0
  and no sale price, and fails the filter. If the sale minimum is at most 0 the deal
  fails the filter as well, whatever its discount and savings are.
\<close>

theorem process_deal_data_invalid_prices:
  assumes "process_deal_data ar (JObj kv) feed = Inr d"
  shows "(\<not> truthy (dict_get kv ''SalePrice'' JNull) \<or> \<not> truthy (dict_get kv ''ListPrice'' JNull)
          \<or> \<not> is_number (minimum_of (dict_get kv ''SalePrice'' JNull))
          \<or> \<not> is_number (minimum_of (dict_get kv ''ListPrice'' JNull))
          \<or> \<not> py_lt (Fin 0) (num_val (minimum_of (dict_get kv ''ListPrice'' JNull)))
          \<longrightarrow> discount_percent d = Fin 0 \<and> savings_amount d = Fin 0 \<and> sale_price d = None
              \<and> \<not> passes_strict_rules d)
         \<and> (py_le (num_val (minimum_of (dict_get kv ''SalePrice'' JNull))) (Fin 0)
              \<longrightarrow> \<not> passes_strict_rules d)"
proof (intro conjI impI)
  let ?sp = "dict_get kv ''SalePrice'' JNull" and ?lp = "dict_get kv ''ListPrice'' JNull"
  have d: "extract_prices ar ?sp ?lp (initial_deal kv feed) = Inr d"
    using assms by simp
  {
    assume "\<not> truthy ?sp \<or> \<not> truthy ?lp \<or> \<not> is_number (minimum_of ?sp)
            \<or> \<not> is_number (minimum_of ?lp) \<or> \<not> py_lt (Fin 0) (num_val (minimum_of ?lp))"
    then have "extract_prices ar ?sp ?lp (initial_deal kv feed) = Inr (initial_deal kv feed)"
      by (rule extract_prices_unchanged)
    with d have "d = initial_deal kv feed" by simp
    then show "discount_percent d = Fin 0" "savings_amount d = Fin 0" "sale_price d = None"
      "\<not> passes_strict_rules d"
      by (simp_all add: initial_deal_fails) (simp_all add: initial_deal_def)
  }
  {
    assume nonpos: "py_le (num_val (minimum_of ?sp)) (Fin 0)"
    show "\<not> passes_strict_rules d"
    proof
      assume pass: "passes_strict_rules d"
      then obtain p where p: "sale_price d = Some p" "\<not> py_lt p (Fin 75)"
        by (auto simp: passes_strict_rules_tests)
      have "p = num_val (minimum_of ?sp)"
        using extract_prices_sale_price [OF d p(1)] by (simp add: initial_deal_def)
      with p(2) nonpos show False
        by (cases "num_val (minimum_of ?sp)") simp_all
    qed
  }
qed

theorem process_deal_data_invalid_prices_witness:
  "process_deal_data plain_arith
     (JObj [(''OfferId'', JStr ''a2''), (''IsSoldOut'', JBool False),
            (''SalePrice'', JObj [(''Minimum'', JNum (Fin (- 5)))]),
            (''ListPrice'', JObj [(''Minimum'', JStr ''200'')])]) ''All''
   = Inr \<lparr>offer_id = JStr ''a2'', title = JStr ''No Title'', url = JStr ''#'',
          feed_name = ''All'', sale_price = None, list_price = None,
          discount_percent = Fin 0, savings_amount = Fin 0, is_sold_out = JBool False,
          status = None\<rparr>
   \<and> \<not> is_number (minimum_of (JObj [(''Minimum'', JStr ''200'')]))
   \<and> py_le (num_val (minimum_of (JObj [(''Minimum'', JNum (Fin (- 5)))]))) (Fin 0)
   \<and> \<not> passes_strict_rules
        \<lparr>offer_id = JStr ''a2'', title = JStr ''No Title'', url = JStr ''#'',
         feed_name = ''All'', sale_price = None, list_price = None,
         discount_percent = Fin 0, savings_amount = Fin 0, is_sold_out = JBool False,
         status = None\<rparr>"
proof -
  have h: "process_deal_data plain_arith
     (JObj [(''OfferId'', JStr ''a2''), (''IsSoldOut'', JBool False),
            (''SalePrice'', JObj [(''Minimum'', JNum (Fin (- 5)))]),
            (''ListPrice'', JObj [(''Minimum'', JStr ''200'')])]) ''All''
   = Inr \<lparr>offer_id = JStr ''a2'', title = JStr ''No Title'', url = JStr ''#'',
          feed_name = ''All'', sale_price = None, list_price = None,
          discount_percent = Fin 0, savings_amount = Fin 0, is_sold_out = JBool False,
          status = None\<rparr>"
    by (simp add: extract_prices_def initial_deal_def dict_get_def)
  show ?thesis
    using h process_deal_data_invalid_prices [OF h]
    by (simp add: dict_get_def)
qed


section \<open>The fetcher\<close>

lemma attempts_simps [simp]:
  "attempts gave_up = []"
  "attempts (attempted a r) = a # attempts r"
  "attempts (slept a d r) = attempts r"
  "attempts (r\<lparr>returned := x\<rparr>) = attempts r"
  by (simp_all add: gave_up_def attempted_def slept_def)

lemma sleeps_simps [simp]:
  "sleeps gave_up = []"
  "sleeps (attempted a r) = sleeps r"
  "sleeps (slept a d r) = (a, d) # sleeps r"
  "sleeps (r\<lparr>returned := x\<rparr>) = sleeps r"
  by (simp_all add: gave_up_def attempted_def slept_def)

lemma fetch_attempts_length: "length (attempts (fetch_attempts outcome jit as)) \<le> length as"
  by (induction as) (auto split: attempt_outcome.splits)

lemma fetch_attempts_subset: "set (attempts (fetch_attempts outcome jit as)) \<subseteq> set as"
  by (induction as) (auto split: attempt_outcome.splits)

lemma fetch_attempts_sleeps:
  "(i, d) \<in> set (sleeps (fetch_attempts outcome jit as)) \<Longrightarrow>
     i \<in> set (attempts (fetch_attempts outcome jit as))
     \<and> (\<exists>body. outcome i = Response 429 body) \<and> d = 2 ^ i + jit i"
  by (induction as) (auto split: attempt_outcome.splits if_splits)

lemma fetch_attempts_429_sleeps:
  "i \<in> set (attempts (fetch_attempts outcome jit as)) \<Longrightarrow> outcome i = Response 429 body \<Longrightarrow>
     (i, 2 ^ i + jit i) \<in> set (sleeps (fetch_attempts outcome jit as))"
  by (induction as) (auto split: attempt_outcome.splits if_splits)

text \<open>
  C8. A fetch sends at most 3 requests. Every attempt \<open>i\<close> that is made and answered
  with status 429 is followed by a wait of \<open>2 ^ i\<close> plus the jitter, and every wait
  follows such an attempt. The jitter is drawn by \<open>random.uniform(0.5, 1)\<close>, so the wait
  lies between \<open>2 ^ i + 0.5\<close> and \<open>2 ^ i + 1\<close>, inside the range from \<open>2 ^ i + 0.5\<close>
  to \<open>2 ^ i + 1.5\<close> of the spec.
\<close>

theorem fetch_feed_data_backoff:
  assumes "\<forall>a. jit feed a \<in> backoff_jitter"
  shows "length (attempts (fetch_feed_data nw jit feed)) \<le> 3
    \<and> (\<forall>i body. i \<in> set (attempts (fetch_feed_data nw jit feed)) \<and> nw feed i = Response 429 body
          \<longrightarrow> (i, 2 ^ i + jit feed i) \<in> set (sleeps (fetch_feed_data nw jit feed)))
    \<and> (\<forall>(i, d) \<in> set (sleeps (fetch_feed_data nw jit feed)).
          i < 3 \<and> (\<exists>body. nw feed i = Response 429 body) \<and> d \<in> backoff_delays i
          \<and> 2 ^ i + 1 / 2 \<le> d \<and> d \<le> 2 ^ i + 1 \<and> d \<le> 2 ^ i + 3 / 2)"
proof -
  let ?r = "fetch_attempts (nw feed) (jit feed) [0, 1, 2]"
  have r: "fetch_feed_data nw jit feed = ?r"
    by (simp only: fetch_feed_data_def)
  have "length (attempts ?r) \<le> length [0, 1, 2 :: nat]"
    by (rule fetch_attempts_length)
  then have a: "length (attempts ?r) \<le> 3"
    by simp
  have b: "(i, 2 ^ i + jit feed i) \<in> set (sleeps ?r)"
    if "i \<in> set (attempts ?r) \<and> nw feed i = Response 429 body" for i body
    using that fetch_attempts_429_sleeps [of i "nw feed" "jit feed" "[0, 1, 2]" body] by blast
  have c: "i < 3 \<and> (\<exists>body. nw feed i = Response 429 body) \<and> d \<in> backoff_delays i
          \<and> 2 ^ i + 1 / 2 \<le> d \<and> d \<le> 2 ^ i + 1 \<and> d \<le> 2 ^ i + 3 / 2"
    if "(i, d) \<in> set (sleeps ?r)" for i d
  proof -
    from that have s: "i \<in> set (attempts ?r)" "\<exists>body. nw feed i = Response 429 body"
        "d = 2 ^ i + jit feed i"
      using fetch_attempts_sleeps [of i d "nw feed" "jit feed" "[0, 1, 2]"] by blast+
    from s(1) have "i \<in> set [0, 1, 2]"
      using fetch_attempts_subset [of "nw feed" "jit feed" "[0, 1, 2]"] by blast
    then have "i < 3" by auto
    moreover have "jit feed i \<in> backoff_jitter" using assms by simp
    then have "d \<in> backoff_delays i" "2 ^ i + 1 / 2 \<le> d" "d \<le> 2 ^ i + 1"
        "d \<le> 2 ^ i + 3 / 2"
      using s(3) by (auto simp: backoff_delays_def backoff_jitter_def uniform_range_def)
    ultimately show ?thesis using s(2) by simp
  qed
  show ?thesis
    unfolding r using a b c by blast
qed

theorem fetch_feed_data_backoff_witness:
  "(\<forall>a. (\<lambda>f a. 3 / 4 :: real) ''All'' a \<in> backoff_jitter)
   \<and> fetch_feed_data
       (\<lambda>f a. if a < 2 then Response 429 JNull else Response 200 (JObj [(''Items'', JArr [JNum (Fin 1)])]))
       (\<lambda>f a. 3 / 4) ''All''
     = \<lparr>returned = Inr (JArr [JNum (Fin 1)]), attempts = [0, 1, 2], sleeps = [(0, 7 / 4), (1, 11 / 4)]\<rparr>
   \<and> (7 / 4 :: real) \<in> backoff_delays 0 \<and> (11 / 4 :: real) \<in> backoff_delays 1
   \<and> (7 / 4 :: real) \<le> 2 ^ 0 + 3 / 2 \<and> (11 / 4 :: real) \<le> 2 ^ 1 + 3 / 2"
proof -
  have h: "\<forall>a. (\<lambda>f a. 3 / 4 :: real) ''All'' a \<in> backoff_jitter"
    by (simp add: backoff_jitter_def uniform_range_def)
  have r: "fetch_feed_data
       (\<lambda>f a. if a < 2 then Response 429 JNull else Response 200 (JObj [(''Items'', JArr [JNum (Fin 1)])]))
       (\<lambda>f a. 3 / 4) ''All''
     = \<lparr>returned = Inr (JArr [JNum (Fin 1)]), attempts = [0, 1, 2], sleeps = [(0, 7 / 4), (1, 11 / 4)]\<rparr>"
    by (simp add: fetch_feed_data_def gave_up_def attempted_def slept_def dict_get_def)
  show ?thesis
    using h r fetch_feed_data_backoff [of "\<lambda>f a. 3 / 4" "''All''"
      "\<lambda>f a. if a < 2 then Response 429 JNull else Response 200 (JObj [(''Items'', JArr [JNum (Fin 1)])])",
      OF h]
    by simp
qed

section \<open>The view\<close>

lemma pages_ceiling: "(int n + 9) div 10 = \<lceil>real n / 10\<rceil>"
proof -
  have "\<lceil>real n / 10\<rceil> = \<lceil>real_of_int (int n) / real_of_int 10\<rceil>" by simp
  also have "\<dots> = - (- int n div 10)" by (rule ceiling_divide_eq_div)
  also have "\<dots> = (int n + 9) div 10" by presburger
  finally show ?thesis by simp
qed

lemma view_ok_init: "view_ok (DealsView ds t)"
  by (simp add: view_ok_def DealsView_def update_buttons_def MAX_DEALS_PER_PAGE_def)

lemma view_ok_press: "view_ok v \<Longrightarrow> view_ok (press v b)"
  by (cases b)
     (auto simp: view_ok_def previous_button_def next_button_def update_page_def
        update_buttons_def)

lemma deals_press [simp]: "deals (press v b) = deals v"
  by (cases b)
     (simp_all add: previous_button_def next_button_def update_page_def update_buttons_def)

lemma view_ok_presses: "view_ok v \<Longrightarrow> view_ok (presses bs v)"
  unfolding presses_def by (induction bs arbitrary: v) (simp_all add: view_ok_press)

lemma deals_presses [simp]: "deals (presses bs v) = deals v"
  unfolding presses_def by (induction bs arbitrary: v) simp_all

lemma previous_noop: "view_ok v \<Longrightarrow> current_page v = 0 \<Longrightarrow> previous_button v = v"
  by (simp add: view_ok_def previous_button_def update_page_def update_buttons_def)

lemma next_noop: "view_ok v \<Longrightarrow> total_pages v - 1 \<le> current_page v \<Longrightarrow> next_button v = v"
  by (auto simp: view_ok_def next_button_def update_page_def update_buttons_def)

text \<open>
  C9, as the spec states it, fails for a view on an empty list: the page count is 0, the
  page is 0, and 0 is not at most \<open>0 - 1\<close>. The three commands never build such a view
  (they answer an empty result with a plain message), but the class accepts it.
\<close>

theorem empty_view_counterexample:
  "\<not> current_page (DealsView [] ''Deals'') \<le> total_pages (DealsView [] ''Deals'') - 1"
  by (simp add: DealsView_def update_buttons_def MAX_DEALS_PER_PAGE_def)

text \<open>
  C9, amended. After the constructor and any sequence of presses, the page count is the
  ceiling of the length of the list over 10 and the page is at least 0. For a list that
  is not empty the page is at most the page count minus 1; for the empty list the page
  and the page count are both 0. \<open>previous\<close> on page 0 and \<open>next\<close> on the last page
  change nothing.
\<close>

theorem deals_view_pages:
  assumes "v = presses bs (DealsView ds t)"
  shows "total_pages v = \<lceil>real (length ds) / 10\<rceil>
    \<and> 0 \<le> current_page v
    \<and> (ds \<noteq> [] \<longrightarrow> current_page v \<le> total_pages v - 1)
    \<and> (ds = [] \<longrightarrow> current_page v = 0 \<and> total_pages v = 0)
    \<and> (current_page v = 0 \<longrightarrow> previous_button v = v)
    \<and> (total_pages v - 1 \<le> current_page v \<longrightarrow> next_button v = v)"
proof -
  have ok: "view_ok v"
    unfolding assms by (intro view_ok_presses view_ok_init)
  have ds: "deals v = ds"
    unfolding assms by (simp add: DealsView_def update_buttons_def)
  have "total_pages v = (int (length (deals v)) + 9) div 10"
    using ok unfolding view_ok_def by blast
  then have tp: "total_pages v = (int (length ds) + 9) div 10"
    by (simp only: ds)
  have pos: "ds \<noteq> [] \<Longrightarrow> 1 \<le> total_pages v"
    unfolding tp by (cases ds) simp_all
  have zero: "ds = [] \<Longrightarrow> total_pages v = 0"
    unfolding tp by simp
  have range: "0 \<le> current_page v" "current_page v \<le> max 0 (total_pages v - 1)"
    using ok unfolding view_ok_def by blast+
  have "total_pages v = \<lceil>real (length ds) / 10\<rceil>"
    unfolding tp by (rule pages_ceiling)
  moreover have "ds \<noteq> [] \<longrightarrow> current_page v \<le> total_pages v - 1"
    using pos range by auto
  moreover have "ds = [] \<longrightarrow> current_page v = 0 \<and> total_pages v = 0"
    using zero range by auto
  ultimately show ?thesis
    using range(1) previous_noop [OF ok] next_noop [OF ok] by blast
qed


theorem deals_view_pages_witness:
  "presses [Next, Next, Previous, Next] (DealsView (replicate 11 example_deal) ''Top'')
     = \<lparr>deals = replicate 11 example_deal, view_title = ''Top'', current_page = 1,
        total_pages = 2, previous_disabled = False, next_disabled = True\<rparr>
   \<and> total_pages (presses [Next, Next, Previous, Next]
         (DealsView (replicate 11 example_deal) ''Top'')) = \<lceil>real (length (replicate 11 example_deal)) / 10\<rceil>
   \<and> next_button (presses [Next, Next, Previous, Next]
         (DealsView (replicate 11 example_deal) ''Top''))
       = presses [Next, Next, Previous, Next] (DealsView (replicate 11 example_deal) ''Top'')"
proof -
  have v: "presses [Next, Next, Previous, Next] (DealsView (replicate 11 example_deal) ''Top'')
     = \<lparr>deals = replicate 11 example_deal, view_title = ''Top'', current_page = 1,
        total_pages = 2, previous_disabled = False, next_disabled = True\<rparr>"
    by (simp add: presses_def DealsView_def next_button_def previous_button_def update_page_def
          update_buttons_def MAX_DEALS_PER_PAGE_def)
  show ?thesis
    using v deals_view_pages [OF v [symmetric]] by simp
qed


section \<open>The tracker of historical lows\<close>



lemma entries_store_low [simp]:
  "entries (store_low c (Some k, p)) = (entries c)(k \<mapsto> p)"
  "entries (store_low c (None, p)) = entries c"
  by (simp_all add: store_low_def)

lemma save_cache [simp]:
  "historical_lows_cache (save_historical_low written w key p)
     = store_low (historical_lows_cache w) (key, p)"
  by (simp add: save_historical_low_def Let_def)



lemma passes_has_price: "passes_strict_rules d \<Longrightarrow> \<exists>p. sale_price d = Some p"
  by (cases "sale_price d") (simp_all add: passes_strict_rules_def)













section \<open>The cycle and the stores\<close>










lemma fetched_item:
  "fetched (state_left (process_item ar writes feed raw w acc)) = fetched w"
  by (auto simp: process_item_def track_deal_def save_historical_low_def Let_def
      split: sum.splits option.splits if_splits)

lemma fetched_items:
  "fetched (state_left (process_items ar writes feed raws w acc)) = fetched w"
proof (induction raws arbitrary: w acc)
  case Nil
  show ?case by simp
next
  case (Cons raw rest)
  show ?case
  proof (cases "process_item ar writes feed raw w acc")
    case (Inl ew)
    then show ?thesis using fetched_item [of ar writes feed raw w acc] by simp
  next
    case (Inr wa)
    obtain w1 acc1 where wa: "wa = (w1, acc1)" by (cases wa)
    then show ?thesis
      using fetched_item [of ar writes feed raw w acc] Cons.IH [of w1 acc1] Inr by simp
  qed
qed

lemma fetched_feed: "fetched (state_left (feed_iteration e feed w acc)) = fetched w @ [feed]"
  by (auto simp: feed_iteration_def Let_def fetched_items split: sum.splits)

lemma fetched_feeds:
  "\<exists>n. fetched (state_left (run_feeds e feeds w acc)) = fetched w @ take n feeds
        \<and> (feeds \<noteq> [] \<longrightarrow> 0 < n)"
proof (induction feeds arbitrary: w acc)
  case Nil
  show ?case by simp
next
  case (Cons feed rest)
  show ?case
  proof (cases "feed_iteration e feed w acc")
    case (Inl ew)
    then have "fetched (state_left (run_feeds e (feed # rest) w acc))
                 = fetched w @ take 1 (feed # rest)"
      using fetched_feed [of e feed w acc] by simp
    then show ?thesis by (intro exI [of _ 1]) simp
  next
    case (Inr wa)
    obtain w1 acc1 where wa: "wa = (w1, acc1)" by (cases wa)
    obtain n where "fetched (state_left (run_feeds e rest w1 acc1)) = fetched w1 @ take n rest"
      using Cons.IH [of w1 acc1] by blast
    moreover have "fetched w1 = fetched w @ [feed]"
      using fetched_feed [of e feed w acc] Inr wa by simp
    ultimately have "fetched (state_left (run_feeds e (feed # rest) w acc))
                 = fetched w @ take (Suc n) (feed # rest)"
      using Inr wa by simp
    then show ?thesis by (intro exI [of _ "Suc n"]) simp
  qed
qed

lemma cycle_cached:
  "\<not> force \<Longrightarrow> now - last_fetch_time w < 300 \<Longrightarrow>
     fetch_and_filter_deals_internal e w force now = (w, Inr (all_qualified_deals w))"
  by (simp add: fetch_and_filter_deals_internal_def MAX_CACHE_AGE_SECONDS_def)

lemma cycle_state:
  assumes "force \<or> 300 \<le> now - last_fetch_time w"
  shows "fst (fetch_and_filter_deals_internal e w force now) =
     (case run_feeds e FEED_NAMES (load_historical_lows (load_outcome e) w) [] of
        Inl (err, w') \<Rightarrow> w'
      | Inr (w', acc) \<Rightarrow> publish e w' acc)"
  using assms
  by (auto simp: fetch_and_filter_deals_internal_def MAX_CACHE_AGE_SECONDS_def split: sum.splits)

lemma fetched_load [simp]: "fetched (load_historical_lows r w) = fetched w"
  by (cases r) (simp_all add: load_historical_lows_def)

lemma cycle_fetches:
  assumes "force \<or> 300 \<le> now - last_fetch_time w"
  shows "\<exists>ys. fetched (fst (fetch_and_filter_deals_internal e w force now))
                = fetched w @ ''All'' # ys"
proof -
  let ?w0 = "load_historical_lows (load_outcome e) w"
  obtain n where n: "fetched (state_left (run_feeds e FEED_NAMES ?w0 []))
                       = fetched ?w0 @ take n FEED_NAMES" "0 < n"
    using fetched_feeds [of e FEED_NAMES ?w0 "[]"] by (auto simp: FEED_NAMES_def)
  obtain m where m: "n = Suc m" using n(2) by (cases n) auto
  have "fetched (fst (fetch_and_filter_deals_internal e w force now))
          = fetched (state_left (run_feeds e FEED_NAMES ?w0 []))"
    unfolding cycle_state [OF assms]
    by (cases "run_feeds e FEED_NAMES ?w0 []") (auto simp: publish_def)
  also have "\<dots> = fetched w @ ''All'' # take m (tl FEED_NAMES)"
    unfolding n(1) m by (simp add: FEED_NAMES_def)
  finally show ?thesis by blast
qed


section \<open>The freshness window\<close>

lemma offline_feed:
  "feed_iteration (offline_env t) feed w acc = Inr (w\<lparr>fetched := fetched w @ [feed]\<rparr>, acc)"
  by (simp add: feed_iteration_def offline_env_def fetch_feed_data_def gave_up_def attempted_def)

lemma offline_feeds:
  "run_feeds (offline_env t) feeds w acc = Inr (w\<lparr>fetched := fetched w @ feeds\<rparr>, acc)"
  by (induction feeds arbitrary: w) (simp_all add: offline_feed)

lemma offline_cycle:
  "force \<or> 300 \<le> now - last_fetch_time w \<Longrightarrow>
   fetch_and_filter_deals_internal (offline_env t) w force now =
     (w\<lparr>fetched := fetched w @ FEED_NAMES, all_qualified_deals := [], last_fetch_time := t\<rparr>, Inr [])"
proof -
  assume due: "force \<or> 300 \<le> now - last_fetch_time w"
  have e: "load_outcome (offline_env t) = FileMissing" "finish_time (offline_env t) = t"
    by (simp_all add: offline_env_def)
  have "load_historical_lows (load_outcome (offline_env t)) w = w"
    by (simp add: e load_historical_lows_def)
  then show ?thesis
    using due
    by (auto simp: fetch_and_filter_deals_internal_def MAX_CACHE_AGE_SECONDS_def offline_feeds
        publish_def sort_desc_def e)
qed

text \<open>
  C5, as the spec states it, fails at the boundary: the code returns the cached list
  while the age is strictly below 300 seconds, so at an age of exactly 300 seconds, which
  does not exceed the window, an unforced call already fetches all the feeds.
\<close>

theorem refresh_at_window_counterexample:
  "\<not> 300 < 1300 - last_fetch_time (initial_state\<lparr>last_fetch_time := 1000\<rparr>)
   \<and> fetched (fst (fetch_and_filter_deals_internal (offline_env 1310)
        (initial_state\<lparr>last_fetch_time := 1000\<rparr>) False 1300)) = FEED_NAMES"
  by (simp add: offline_cycle) (simp add: initial_state_def)

text \<open>
  C5, amended. An unforced call at an age strictly below 300 seconds returns the cached
  list and leaves the whole state, the log of fetches included, as it was. A forced call,
  or a call at an age of at least 300 seconds, fetches, beginning with the feed \<open>All\<close>.
  The state changes only if the call is forced or the age is at least 300 seconds.
\<close>

theorem cached_within_window:
  "(\<not> force \<and> now - last_fetch_time w < 300 \<longrightarrow>
      fetch_and_filter_deals_internal e w force now = (w, Inr (all_qualified_deals w)))
   \<and> (force \<or> 300 \<le> now - last_fetch_time w \<longrightarrow>
        (\<exists>ys. fetched (fst (fetch_and_filter_deals_internal e w force now))
                = fetched w @ ''All'' # ys))
   \<and> (fst (fetch_and_filter_deals_internal e w force now) \<noteq> w \<longrightarrow>
        force \<or> 300 \<le> now - last_fetch_time w)"
proof (intro conjI impI)
  assume "\<not> force \<and> now - last_fetch_time w < 300"
  then show "fetch_and_filter_deals_internal e w force now = (w, Inr (all_qualified_deals w))"
    by (simp add: cycle_cached)
next
  assume "force \<or> 300 \<le> now - last_fetch_time w"
  then show "\<exists>ys. fetched (fst (fetch_and_filter_deals_internal e w force now))
                = fetched w @ ''All'' # ys"
    by (rule cycle_fetches)
next
  assume "fst (fetch_and_filter_deals_internal e w force now) \<noteq> w"
  then show "force \<or> 300 \<le> now - last_fetch_time w"
    using cycle_cached [of force now w e] by fastforce
qed

theorem cached_within_window_witness:
  "\<not> False \<and> 1299 - last_fetch_time (initial_state\<lparr>last_fetch_time := 1000\<rparr>) < 300
   \<and> fetch_and_filter_deals_internal (offline_env 1310)
        (initial_state\<lparr>last_fetch_time := 1000\<rparr>) False 1299
       = (initial_state\<lparr>last_fetch_time := 1000\<rparr>, Inr [])
   \<and> fetched (fst (fetch_and_filter_deals_internal (offline_env 1310)
        (initial_state\<lparr>last_fetch_time := 1000\<rparr>) True 1299)) = FEED_NAMES"
  using cached_within_window [of False 1299 "initial_state\<lparr>last_fetch_time := 1000\<rparr>"
      "offline_env 1310"]
    cached_within_window [of True 1299 "initial_state\<lparr>last_fetch_time := 1000\<rparr>"
      "offline_env 1310"]
  by (simp add: offline_cycle) (simp add: initial_state_def)


section \<open>Cycles on the example feeds\<close>












section \<open>A cycle that raises\<close>



lemma load_frame [simp]:
  "all_qualified_deals (load_historical_lows r w) = all_qualified_deals w"
  "last_fetch_time (load_historical_lows r w) = last_fetch_time w"
  "saved (load_historical_lows r w) = saved w"
  "persistence_file (load_historical_lows r w) = persistence_file w"
  by (cases r; simp add: load_historical_lows_def)+










section \<open>The stored low over a cycle\<close>

















section \<open>Overlapping triggers\<close>

lemma filter_update_length:
  "i < length xs \<Longrightarrow> \<not> P (xs ! i) \<Longrightarrow> P x \<Longrightarrow>
     length (filter P (xs[i := x])) = Suc (length (filter P xs))"
proof (induction xs arbitrary: i)
  case Nil
  then show ?case by simp
next
  case (Cons y ys)
  then show ?case by (cases i) simp_all
qed

lemma run_one:
  "i < length ts \<Longrightarrow> ts ! i = (e, t) \<Longrightarrow>
     run_schedule [i] (w, ts) = (fst (task_step e w t), ts[i := (e, snd (task_step e w t))])"
  by (simp add: case_prod_beta)

text \<open>
  A task that runs alone does what the function does: the steps of the task are the
  function cut at its suspension points.
\<close>

lemma finished_stay:
  "run_schedule (replicate n 0) (w, [(e, Returned ds)]) = (w, [(e, Returned ds)])"
  "run_schedule (replicate n 0) (w, [(e, Raised err)]) = (w, [(e, Raised err)])"
  by (induction n) simp_all

lemma in_flight_alone:
  "length feeds < n \<Longrightarrow>
   run_schedule (replicate n 0) (w, [(e, InFlight feeds acc)]) =
     (case run_feeds e feeds w acc of
        Inl (err, w') \<Rightarrow> (w', [(e, Raised err)])
      | Inr (w', acc') \<Rightarrow>
          (publish e w' acc', [(e, Returned (all_qualified_deals (publish e w' acc')))]))"
proof (induction feeds arbitrary: n w acc)
  case Nil
  then obtain m where "n = Suc m" by (cases n) auto
  then show ?case by (simp add: finished_stay)
next
  case (Cons feed rest)
  then obtain m where m: "n = Suc m" "length rest < m" by (cases n) auto
  show ?case
  proof (cases "feed_iteration e feed w acc")
    case (Inl ew)
    then show ?thesis
      unfolding m by (cases ew) (simp add: finished_stay)
  next
    case (Inr wa)
    obtain w1 acc1 where wa: "wa = (w1, acc1)" by (cases wa)
    show ?thesis
      unfolding m using Inr wa Cons.IH [OF m(2), of w1 acc1] by simp
  qed
qed

lemma task_alone:
  "run_schedule (replicate (length FEED_NAMES + 2) 0) (w, [(e, Waiting force now)]) =
     (case fetch_and_filter_deals_internal e w force now of
        (w', Inl err) \<Rightarrow> (w', [(e, Raised err)])
      | (w', Inr ds) \<Rightarrow> (w', [(e, Returned ds)]))"
proof (cases "\<not> force \<and> now - last_fetch_time w < MAX_CACHE_AGE_SECONDS")
  case True
  then show ?thesis
    by (simp add: fetch_and_filter_deals_internal_def finished_stay)
next
  case False
  have "run_schedule (replicate (length FEED_NAMES + 2) 0) (w, [(e, Waiting force now)]) =
          run_schedule (replicate (length FEED_NAMES + 1) 0)
            (load_historical_lows (load_outcome e) w, [(e, InFlight FEED_NAMES [])])"
    using False by auto
  also have "\<dots> =
     (case run_feeds e FEED_NAMES (load_historical_lows (load_outcome e) w) [] of
        Inl (err, w') \<Rightarrow> (w', [(e, Raised err)])
      | Inr (w', acc') \<Rightarrow>
          (publish e w' acc', [(e, Returned (all_qualified_deals (publish e w' acc')))]))"
    by (rule in_flight_alone) simp
  finally show ?thesis
    using False
    by (auto simp: fetch_and_filter_deals_internal_def split: sum.splits)
qed

text \<open>
  C6, as the spec states it, fails: nothing in the code marks a cycle as running. Two
  forced triggers that the event loop starts one after the other are both in their loop
  at the same time, and each then fetches the feed \<open>All\<close>.
\<close>

theorem two_cycles_in_flight_counterexample:
  "cycles_in_flight (snd (run_schedule [0, 1]
      (initial_state, [(offline_env 20, Waiting True 0), (offline_env 21, Waiting True 1)]))) = 2
   \<and> fetched (fst (run_schedule [0, 1, 0, 1]
      (initial_state, [(offline_env 20, Waiting True 0), (offline_env 21, Waiting True 1)])))
       = [''All'', ''All'']"
proof -
  have o: "load_historical_lows (load_outcome (offline_env t)) w = w" for t w
    by (simp add: offline_env_def load_historical_lows_def)
  have f: "fetched initial_state = []"
    by (simp add: initial_state_def)
  show ?thesis
    by (simp add: cycles_in_flight_def FEED_NAMES_def offline_feed o f)
qed

text \<open>
  C6, amended. Whatever the other tasks are doing, a trigger that is forced or finds the
  published timestamp at least 300 seconds old starts a cycle of its own, which makes one
  more cycle in flight; an unforced trigger that finds the timestamp less than 300 seconds
  old returns the cached list; and every cycle in flight fetches the next of its feeds
  itself.
\<close>

theorem trigger_starts_own_cycle:
  assumes "i < length ts" and "ts ! i = (e, Waiting force now)"
  shows "(force \<or> 300 \<le> now - last_fetch_time w \<longrightarrow>
            run_schedule [i] (w, ts) =
              (load_historical_lows (load_outcome e) w, ts[i := (e, InFlight FEED_NAMES [])])
            \<and> cycles_in_flight (snd (run_schedule [i] (w, ts))) = Suc (cycles_in_flight ts))
    \<and> (\<not> force \<and> now - last_fetch_time w < 300 \<longrightarrow>
            run_schedule [i] (w, ts) = (w, ts[i := (e, Returned (all_qualified_deals w))]))
    \<and> (\<forall>j e' feed feeds acc.
          j < length ts \<and> ts ! j = (e', InFlight (feed # feeds) acc) \<longrightarrow>
            fetched (fst (run_schedule [j] (w, ts))) = fetched w @ [feed])"
proof (intro conjI impI allI)
  assume due: "force \<or> 300 \<le> now - last_fetch_time w"
  then show start: "run_schedule [i] (w, ts) =
      (load_historical_lows (load_outcome e) w, ts[i := (e, InFlight FEED_NAMES [])])"
    using run_one [OF assms, of w] by (auto simp: MAX_CACHE_AGE_SECONDS_def)
  have "\<not> (\<lambda>(e, t). in_flight t) (ts ! i)"
    by (simp add: assms(2))
  then have "length (filter (\<lambda>(e, t). in_flight t) (ts[i := (e, InFlight FEED_NAMES [])]))
               = Suc (length (filter (\<lambda>(e, t). in_flight t) ts))"
    using assms(1) by (intro filter_update_length) simp_all
  then show "cycles_in_flight (snd (run_schedule [i] (w, ts))) = Suc (cycles_in_flight ts)"
    unfolding start by (simp add: cycles_in_flight_def)
next
  assume "\<not> force \<and> now - last_fetch_time w < 300"
  then show "run_schedule [i] (w, ts) = (w, ts[i := (e, Returned (all_qualified_deals w))])"
    using run_one [OF assms, of w] by (simp add: MAX_CACHE_AGE_SECONDS_def)
next
  fix j e' feed feeds acc
  assume j: "j < length ts \<and> ts ! j = (e', InFlight (feed # feeds) acc)"
  have "fst (task_step e' w (InFlight (feed # feeds) acc))
          = state_left (feed_iteration e' feed w acc)"
    by (cases "feed_iteration e' feed w acc") auto
  then show "fetched (fst (run_schedule [j] (w, ts))) = fetched w @ [feed]"
    using j run_one [of j ts e' "InFlight (feed # feeds) acc" w] by (simp add: fetched_feed)
qed

theorem trigger_starts_own_cycle_witness:
  "Suc 0 < length [(offline_env 20, InFlight FEED_NAMES []), (offline_env 21, Waiting True 1)]
   \<and> run_schedule [1]
       (initial_state, [(offline_env 20, InFlight FEED_NAMES []), (offline_env 21, Waiting True 1)])
      = (initial_state,
         [(offline_env 20, InFlight FEED_NAMES []), (offline_env 21, InFlight FEED_NAMES [])])
   \<and> cycles_in_flight (snd (run_schedule [1]
       (initial_state, [(offline_env 20, InFlight FEED_NAMES []), (offline_env 21, Waiting True 1)])))
      = 2
   \<and> fetched (fst (run_schedule [0]
       (initial_state, [(offline_env 20, InFlight FEED_NAMES []), (offline_env 21, Waiting True 1)])))
      = [''All'']"
proof -
  have l: "1 < length [(offline_env 20, InFlight FEED_NAMES []), (offline_env 21, Waiting True 1)]"
    by simp
  have t: "[(offline_env 20, InFlight FEED_NAMES []), (offline_env 21, Waiting True 1)] ! 1
             = (offline_env 21, Waiting True 1)"
    by simp
  have c: "cycles_in_flight
             [(offline_env 20, InFlight FEED_NAMES []), (offline_env 21, Waiting True 1)] = 1"
    by (simp add: cycles_in_flight_def)
  have o: "load_historical_lows (load_outcome (offline_env 21)) initial_state = initial_state"
    by (simp add: offline_env_def load_historical_lows_def)
  have f: "fetched initial_state = []"
    by (simp add: initial_state_def)
  have z: "0 < length [(offline_env 20, InFlight FEED_NAMES []), (offline_env 21, Waiting True 1)]
      \<and> [(offline_env 20, InFlight FEED_NAMES []), (offline_env 21, Waiting True 1)] ! 0
          = (offline_env 20, InFlight (''All'' # tl FEED_NAMES) [])"
    by (simp add: FEED_NAMES_def)
  note T = trigger_starts_own_cycle [OF l t, where w = initial_state]
  have a: "run_schedule [1]
       (initial_state, [(offline_env 20, InFlight FEED_NAMES []), (offline_env 21, Waiting True 1)])
      = (initial_state,
         [(offline_env 20, InFlight FEED_NAMES []), (offline_env 21, InFlight FEED_NAMES [])])"
    and b: "cycles_in_flight (snd (run_schedule [1]
       (initial_state, [(offline_env 20, InFlight FEED_NAMES []), (offline_env 21, Waiting True 1)])))
      = 2"
    using T by (simp_all add: c o cycles_in_flight_def del: run_schedule.simps)
  have "fetched (fst (run_schedule [0]
       (initial_state, [(offline_env 20, InFlight FEED_NAMES []), (offline_env 21, Waiting True 1)])))
      = fetched initial_state @ [''All'']"
    using T z by blast
  with a b show ?thesis
    by (simp add: f del: run_schedule.simps)
qed



end
